theory Spec2Isabelle
  imports Main "HOL-Library.Sublist"
begin

section \<open>JavaScript values that reach the harness\<close>

text \<open>
  The harness catches whatever a test action throws (\<^verbatim>\<open>catch (err: any)\<close>) and then
  reads \<^verbatim>\<open>err.message\<close> and \<^verbatim>\<open>err.cause\<close>. The values modelled are the two
  nullish values, string primitives and error objects with a name, a message and a cause
  (the cause is \<open>JsUndefined\<close> when the error was built without one).
\<close>

datatype js_value =
    JsUndefined
  | JsNull
  | JsString string
  | JsError string string js_value

text \<open>Truthiness, as \<^verbatim>\<open>!x\<close>, \<^verbatim>\<open>a || b\<close> and \<^verbatim>\<open>if (x)\<close> test it.\<close>

fun truthy :: "js_value \<Rightarrow> bool" where
  "truthy JsUndefined = False"
| "truthy JsNull = False"
| "truthy (JsString s) = (s \<noteq> [])"
| "truthy (JsError n m c) = True"

definition js_or :: "js_value \<Rightarrow> js_value \<Rightarrow> js_value" where
  "js_or a b = (if truthy a then a else b)"

text \<open>
  String conversion, as a template literal does it. An error object goes through
  \<^verbatim>\<open>Error.prototype.toString\<close>: the name alone when the message is empty, the
  message alone when the name is empty, otherwise \<^verbatim>\<open>name: message\<close>.
\<close>

fun to_string :: "js_value \<Rightarrow> string" where
  "to_string JsUndefined = ''undefined''"
| "to_string JsNull = ''null''"
| "to_string (JsString s) = s"
| "to_string (JsError n m c) =
     (if n = [] then m else if m = [] then n else n @ '': '' @ m)"

text \<open>
  The error raised by a property read on a nullish value, and the one raised by the use of
  an identifier that no declaration binds. The wording of their messages is the engine's.
\<close>

definition type_error_read :: "js_value \<Rightarrow> string \<Rightarrow> js_value" where
  "type_error_read v p =
     JsError ''TypeError''
       (''Cannot read properties of '' @ to_string v @ '' (reading '' @ [CHR 0x27] @ p
          @ [CHR 0x27] @ '')'')
       JsUndefined"

definition reference_error :: "string \<Rightarrow> js_value" where
  "reference_error x = JsError ''ReferenceError'' (x @ '' is not defined'') JsUndefined"

text \<open>
  The two property reads of the harness. A read on \<^verbatim>\<open>undefined\<close> or \<^verbatim>\<open>null\<close>
  throws (\<open>Inl\<close>); a string primitive has neither property.
\<close>

fun prop_message :: "js_value \<Rightarrow> js_value + js_value" where
  "prop_message JsUndefined = Inl (type_error_read JsUndefined ''message'')"
| "prop_message JsNull = Inl (type_error_read JsNull ''message'')"
| "prop_message (JsString s) = Inr JsUndefined"
| "prop_message (JsError n m c) = Inr (JsString m)"

fun prop_cause :: "js_value \<Rightarrow> js_value + js_value" where
  "prop_cause JsUndefined = Inl (type_error_read JsUndefined ''cause'')"
| "prop_cause JsNull = Inl (type_error_read JsNull ''cause'')"
| "prop_cause (JsString s) = Inr JsUndefined"
| "prop_cause (JsError n m c) = Inr c"

section \<open>Observable behaviour\<close>

text \<open>
  What a piece of code does to the outside: a call of \<^verbatim>\<open>console.log\<close> (\<open>Stdout\<close>) or
  \<^verbatim>\<open>console.error\<close> (\<open>Stderr\<close>) with its arguments, or a request to the remote
  inference service for a model. The run's history also records when the harness invokes
  a test action and when the promise it awaits settles.
\<close>

datatype stream = Stdout | Stderr

datatype io =
    Log stream "js_value list"
  | Fetch string

datatype event =
    IO io
  | Invoke string
  | Settle string

text \<open>How the promise of an asynchronous call ends: fulfilled, rejected, or never settled.\<close>

datatype 'a completion =
    Returned 'a
  | Threw js_value
  | Pending

datatype outcome =
    Resolves
  | Rejects js_value
  | Hangs

text \<open>
  A test action (\<^verbatim>\<open>() => Promise<void>\<close>): given the history so far, what it does to
  the outside and how its promise ends. A synchronous throw of the action is caught by the
  same \<^verbatim>\<open>try\<close> block and is a rejection here. An action that ends the process itself is
  outside the model.
\<close>

type_synonym action = "event list \<Rightarrow> io list \<times> outcome"

section \<open>Output text\<close>

text \<open>The non-ASCII glyphs of the source, as the UTF-8 bytes written to the terminal.\<close>

definition glyph_pass :: string where
  "glyph_pass = [CHR 0xE2, CHR 0x9C, CHR 0x85]"

definition glyph_fail :: string where
  "glyph_fail = [CHR 0xE2, CHR 0x9D, CHR 0x8C]"

definition glyph_rule :: string where
  "glyph_rule = [CHR 0xE2, CHR 0x95, CHR 0x90]"

definition glyph_dash :: string where
  "glyph_dash = [CHR 0xE2, CHR 0x80, CHR 0x94]"

definition glyph_rocket :: string where
  "glyph_rocket = [CHR 0xF0, CHR 0x9F, CHR 0x9A, CHR 0x80]"

definition glyph_skip :: string where
  "glyph_skip = [CHR 0xE2, CHR 0x8F, CHR 0xAD, CHR 0xEF, CHR 0xB8, CHR 0x8F]"

definition glyph_arrow :: string where
  "glyph_arrow = [CHR 0xE2, CHR 0x86, CHR 0x92]"

definition glyph_party :: string where
  "glyph_party = [CHR 0xF0, CHR 0x9F, CHR 0x8E, CHR 0x89]"

definition glyph_warn :: string where
  "glyph_warn = [CHR 0xE2, CHR 0x9A, CHR 0xA0, CHR 0xEF, CHR 0xB8, CHR 0x8F]"

definition glyph_tee :: string where
  "glyph_tee = [CHR 0xE2, CHR 0x94, CHR 0x9C, CHR 0xE2, CHR 0x94, CHR 0x80, CHR 0xE2, CHR 0x94, CHR 0x80]"

definition glyph_elbow :: string where
  "glyph_elbow = [CHR 0xE2, CHR 0x94, CHR 0x94, CHR 0xE2, CHR 0x94, CHR 0x80, CHR 0xE2, CHR 0x94, CHR 0x80]"

definition nl :: string where
  "nl = [CHR 0x0A]"

text \<open>\<^verbatim>\<open>s.repeat(n)\<close>.\<close>

definition repeat :: "string \<Rightarrow> nat \<Rightarrow> string" where
  "repeat s n = concat (replicate n s)"

text \<open>A count, as a template literal prints it: decimal digits, no leading zero.\<close>

definition digit :: "nat \<Rightarrow> char" where
  "digit d = ''0123456789'' ! d"

function show_nat :: "nat \<Rightarrow> string" where
  "show_nat n = (if n < 10 then [digit n] else show_nat (n div 10) @ [digit (n mod 10)])"
  by pat_completeness auto
termination
  by (relation "measure id") auto

declare show_nat.simps [simp del]

definition out :: "string \<Rightarrow> event" where
  "out s = IO (Log Stdout [JsString s])"

definition err :: "string \<Rightarrow> event" where
  "err s = IO (Log Stderr [JsString s])"

section \<open>The harness\<close>

text \<open>\<^verbatim>\<open>divider(title)\<close>: three lines on standard output.\<close>

definition divider :: "string \<Rightarrow> event list" where
  "divider title =
     [out (nl @ repeat glyph_rule 60),
      out (''  '' @ title),
      out (repeat glyph_rule 60 @ nl)]"

text \<open>
  \<^verbatim>\<open>runTest(name, fn)\<close>. The \<^verbatim>\<open>try\<close> block prints the header and awaits the action.
  When the action never settles, neither does \<open>runTest\<close>. The \<^verbatim>\<open>catch\<close> block prints
  the failure line, then \<^verbatim>\<open>err.message || err\<close>, then the cause when it is truthy; a
  throw inside the \<^verbatim>\<open>catch\<close> block leaves \<open>runTest\<close>.
\<close>

definition runTest :: "string \<Rightarrow> action \<Rightarrow> event list \<Rightarrow> bool completion \<times> event list" where
  "runTest name fn h =
     (let h1 = h @ divider name @ [Invoke name];
          (effects, result) = fn h1;
          h2 = h1 @ map IO effects
      in case result of
           Hangs \<Rightarrow> (Pending, h2)
         | Resolves \<Rightarrow>
             (Returned True,
              h2 @ [Settle name, out (nl @ glyph_pass @ ''  '' @ name @ '' '' @ glyph_dash @ '' PASSED'')])
         | Rejects e \<Rightarrow>
             (let h3 = h2 @ [Settle name,
                             err (nl @ glyph_fail @ ''  '' @ name @ '' '' @ glyph_dash @ '' FAILED'')]
              in case prop_message e of
                   Inl t \<Rightarrow> (Threw t, h3)
                 | Inr m \<Rightarrow>
                     (let h4 = h3 @ [err (''    '' @ to_string (js_or m e))]
                      in case prop_cause e of
                           Inl t \<Rightarrow> (Threw t, h4)
                         | Inr c \<Rightarrow>
                             (if truthy c
                              then (Returned False,
                                    h4 @ [IO (Log Stderr [JsString ''    Cause:'', c])])
                              else (Returned False, h4)))))"

section \<open>Results, configuration and module scope\<close>

record TestResult =
  name :: string
  passed :: bool

text \<open>\<^verbatim>\<open>process.env\<close> after \<^verbatim>\<open>dotenv.config()\<close>: a variable is a string or absent.\<close>

type_synonym env = "string \<rightharpoonup> string"

definition getenv :: "env \<Rightarrow> string \<Rightarrow> js_value" where
  "getenv e k = (case e k of None \<Rightarrow> JsUndefined | Some s \<Rightarrow> JsString s)"

text \<open>
  The constants a module declares at its top level, by identifier. Reading an identifier
  that no declaration binds throws a \<^verbatim>\<open>ReferenceError\<close>.
\<close>

type_synonym scope = "(string \<times> js_value) list"

definition module_scope :: "env \<Rightarrow> scope" where
  "module_scope e =
     [(''AZURE_ENDPOINT'', getenv e ''AZURE_API_ENDPOINT''),
      (''AZURE_API_KEY'', getenv e ''AZURE_API_KEY''),
      (''MODEL_GPT'', js_or (getenv e ''AZURE_MODEL_GPT'') (JsString ''gpt-4o'')),
      (''MODEL_ALT'', js_or (getenv e ''AZURE_MODEL_ALT'') (JsString []))]"

definition module_scope_flux :: "env \<Rightarrow> scope" where
  "module_scope_flux e =
     [(''AZURE_ENDPOINT'', getenv e ''AZURE_API_ENDPOINT''),
      (''AZURE_API_KEY'', getenv e ''AZURE_API_KEY''),
      (''MODEL_GPT'', js_or (getenv e ''AZURE_MODEL_GPT'') (JsString ''gpt-4o'')),
      (''MODEL_KIMI'', js_or (getenv e ''AZURE_MODEL_KIMI'') (JsString ''Kimi-K2.5'')),
      (''MODEL_FLUX'', js_or (getenv e ''AZURE_MODEL_FLUX'') (JsString ''FLUX.2-pro'')),
      (''FLUX_ENDPOINT'',
         js_or (getenv e ''FLUX_ENDPOINT'') (JsString ''https://jai-omi.openai.azure.com/openai/v1/''))]"

text \<open>
  Sequencing of asynchronous steps: the next step runs on the history the previous one
  left, and only when the previous one returned.
\<close>

definition and_then ::
  "'a completion \<times> event list \<Rightarrow> ('a \<Rightarrow> event list \<Rightarrow> 'b completion \<times> event list)
     \<Rightarrow> 'b completion \<times> event list" where
  "and_then r k =
     (case r of
        (Returned a, h) \<Rightarrow> k a h
      | (Threw e, h) \<Rightarrow> (Threw e, h)
      | (Pending, h) \<Rightarrow> (Pending, h))"

definition read_ident :: "scope \<Rightarrow> string \<Rightarrow> event list \<Rightarrow> js_value completion \<times> event list" where
  "read_ident sc x h =
     (case map_of sc x of
        None \<Rightarrow> (Threw (reference_error x), h)
      | Some v \<Rightarrow> (Returned v, h))"

definition console_log :: "js_value list \<Rightarrow> event list \<Rightarrow> unit completion \<times> event list" where
  "console_log args h = (Returned (), h @ [IO (Log Stdout args)])"

section \<open>The alternative-model test\<close>

text \<open>
  The remote text-generation call (\<^verbatim>\<open>generateText\<close> of the SDK) is a parameter: given the
  model, the prompt and the history, the service answers with a text, fails with an error,
  or never answers. Every call is recorded as a \<open>Fetch\<close>.
\<close>

datatype reply =
    Text string
  | Failure js_value
  | NoReply

type_synonym generate = "string \<Rightarrow> string \<Rightarrow> event list \<Rightarrow> reply"

definition skip_notice :: string where
  "skip_notice = glyph_skip @ ''  Skipped '' @ glyph_dash @ '' AZURE_MODEL_ALT not set in .env''"

definition testAlternativeModel :: "scope \<Rightarrow> generate \<Rightarrow> action" where
  "testAlternativeModel sc generateText h =
     (case map_of sc ''MODEL_ALT'' of
        None \<Rightarrow> ([], Rejects (reference_error ''MODEL_ALT''))
      | Some m \<Rightarrow>
          if \<not> truthy m then ([Log Stdout [JsString skip_notice]], Resolves)
          else
            (case generateText (to_string m) ''What model are you? Reply in one sentence.''
                    (h @ [IO (Fetch (to_string m))]) of
               Text t \<Rightarrow>
                 ([Fetch (to_string m),
                   Log Stdout [JsString (''Model: '' @ to_string m)],
                   Log Stdout [JsString ''Response:'', JsString t]], Resolves)
             | Failure e \<Rightarrow> ([Fetch (to_string m)], Rejects e)
             | NoReply \<Rightarrow> ([Fetch (to_string m)], Hangs)))"

text \<open>
  The list \<^verbatim>\<open>tests\<close> of \<^verbatim>\<open>main\<close>. The first five actions are calls into the SDK and are
  parameters here.
\<close>

definition registered_tests ::
  "scope \<Rightarrow> action \<Rightarrow> action \<Rightarrow> action \<Rightarrow> action \<Rightarrow> action \<Rightarrow> generate
     \<Rightarrow> (string \<times> action) list" where
  "registered_tests sc testGenerateText testStreamText testConversation testToolCalling
       testOpenAICompatProvider generateText =
     [(''1. Generate Text (Foundry Provider)'', testGenerateText),
      (''2. Stream Text (Foundry Provider)'', testStreamText),
      (''3. Multi-turn Conversation'', testConversation),
      (''4. Tool Calling (@ai-sdk/openai)'', testToolCalling),
      (''5. OpenAI-Compatible Provider'', testOpenAICompatProvider),
      (''6. Alternative Model'', testAlternativeModel sc generateText)]"

section \<open>Running all tests\<close>

text \<open>
  The loop \<^verbatim>\<open>for (const [name, fn] of tests)\<close>: each \<open>runTest\<close> is awaited, and its
  boolean is pushed onto \<open>results\<close> with the name. A \<open>runTest\<close> that throws or never
  settles ends the loop there.
\<close>

fun run_tests ::
  "(string \<times> action) list \<Rightarrow> TestResult list \<Rightarrow> event list
     \<Rightarrow> TestResult list completion \<times> event list" where
  "run_tests [] results h = (Returned results, h)"
| "run_tests ((n, fn) # rest) results h =
     (case runTest n fn h of
        (Returned ok, h') \<Rightarrow> run_tests rest (results @ [\<lparr>name = n, passed = ok\<rparr>]) h'
      | (Threw e, h') \<Rightarrow> (Threw e, h')
      | (Pending, h') \<Rightarrow> (Pending, h'))"

definition summary_row :: "TestResult \<Rightarrow> event" where
  "summary_row r = out (''  '' @ (if passed r then glyph_pass else glyph_fail) @ ''  '' @ name r)"

definition tally_line :: "TestResult list \<Rightarrow> string" where
  "tally_line results =
     nl @ ''  '' @ show_nat (length (filter passed results)) @ ''/''
        @ show_nat (length results) @ '' tests passed''"

definition summary :: "string \<Rightarrow> TestResult list \<Rightarrow> event list" where
  "summary title results =
     divider title @ map summary_row results @ [out (tally_line results)]"

text \<open>\<^verbatim>\<open>main\<close> of the starter kit; the list of tests is a parameter.\<close>

definition main :: "scope \<Rightarrow> (string \<times> action) list \<Rightarrow> event list \<Rightarrow> unit completion \<times> event list" where
  "main sc tests h =
     and_then (console_log
        [JsString (glyph_rocket @ '' Vercel AI SDK v6 + Azure AI Foundry '' @ glyph_dash
                     @ '' Starter Kit'' @ nl)] h) (\<lambda>_ h.
     and_then (read_ident sc ''AZURE_ENDPOINT'' h) (\<lambda>endpoint h.
     and_then (console_log [JsString ''Endpoint:'', endpoint] h) (\<lambda>_ h.
     and_then (read_ident sc ''MODEL_GPT'' h) (\<lambda>gpt h.
     and_then (console_log [JsString ''Primary model:'', gpt] h) (\<lambda>_ h.
     and_then (read_ident sc ''MODEL_ALT'' h) (\<lambda>alt h.
     and_then (console_log [JsString ''Alternative model:'', js_or alt (JsString ''(not set)'')] h) (\<lambda>_ h.
     and_then (run_tests tests [] h) (\<lambda>results h.
       (Returned (), h @ summary ''Summary'' results)))))))))"

text \<open>
  The module from its first statement on. Without an endpoint or a key it prints the
  diagnostic and calls \<^verbatim>\<open>process.exit(1)\<close>. Otherwise it runs
  \<^verbatim>\<open>main().catch(console.error)\<close>; no statement sets an exit code, so a process that
  ends does so with status 0. The provider objects the module builds between the check and
  the call of \<open>main\<close> are constructions of the SDK; they are taken to print nothing,
  request nothing and not to throw.
\<close>

datatype process =
    Exited nat
  | Running

definition missing_config :: string where
  "missing_config =
     glyph_fail @ ''  Missing AZURE_API_ENDPOINT or AZURE_API_KEY '' @ glyph_dash
       @ '' copy .env.example '' @ glyph_arrow @ '' .env and fill in your values.''"

definition index_ts :: "env \<Rightarrow> (string \<times> action) list \<Rightarrow> process \<times> event list" where
  "index_ts e tests =
     (if \<not> truthy (getenv e ''AZURE_API_ENDPOINT'') \<or> \<not> truthy (getenv e ''AZURE_API_KEY'')
      then (Exited 1, [err missing_config])
      else
        (case main (module_scope e) tests [] of
           (Returned u, h) \<Rightarrow> (Exited 0, h)
         | (Threw x, h) \<Rightarrow> (Exited 0, h @ [IO (Log Stderr [x])])
         | (Pending, h) \<Rightarrow> (Running, h)))"

section \<open>The variant with image generation\<close>

definition main_flux :: "scope \<Rightarrow> (string \<times> action) list \<Rightarrow> event list \<Rightarrow> unit completion \<times> event list" where
  "main_flux sc tests h =
     and_then (console_log
        [JsString (glyph_rocket @ '' Vercel AI SDK v6 + Azure AI Foundry '' @ glyph_dash
                     @ '' Enhanced Integration Test Suite'' @ nl)] h) (\<lambda>_ h.
     and_then (console_log [JsString ''Configuration:''] h) (\<lambda>_ h.
     and_then (read_ident sc ''AZURE_ENDPOINT'' h) (\<lambda>v h.
     and_then (console_log [JsString (glyph_tee @ '' Text Models Endpoint: '' @ to_string v)] h) (\<lambda>_ h.
     and_then (read_ident sc ''FLUX_ENDPOINT'' h) (\<lambda>v h.
     and_then (console_log [JsString (glyph_tee @ '' Image Model Endpoint: '' @ to_string v)] h) (\<lambda>_ h.
     and_then (read_ident sc ''MODEL_GPd'' h) (\<lambda>v h.
     and_then (console_log [JsString (glyph_tee @ '' GPT Model: '' @ to_string v)] h) (\<lambda>_ h.
     and_then (read_ident sc ''MODEL_KIMI'' h) (\<lambda>v h.
     and_then (console_log [JsString (glyph_tee @ '' Kimi Model: '' @ to_string v)] h) (\<lambda>_ h.
     and_then (read_ident sc ''MODEL_FLUX'' h) (\<lambda>v h.
     and_then (console_log [JsString (glyph_elbow @ '' FLUX Model: '' @ to_string v)] h) (\<lambda>_ h.
     and_then (run_tests tests [] h) (\<lambda>results h.
       (Returned (),
        h @ summary ''Test Summary'' results @
          [if length (filter passed results) = length results
           then out (nl @ glyph_party
                  @ '' AR tests passed! Your Azure AI Foundry integration is working perfectly.'')
           else out (nl @ glyph_warn
                  @ ''  Some tests failed. Please check the error messages above for details.'')])
     )))))))))))))"

definition index_with_flux_ts :: "env \<Rightarrow> (string \<times> action) list \<Rightarrow> process \<times> event list" where
  "index_with_flux_ts e tests =
     (if \<not> truthy (getenv e ''AZURE_API_ENDPOINT'') \<or> \<not> truthy (getenv e ''AZURE_API_KEY'')
      then (Exited 1, [err missing_config])
      else
        (case main_flux (module_scope_flux e) tests [] of
           (Returned u, h) \<Rightarrow> (Exited 0, h)
         | (Threw x, h) \<Rightarrow> (Exited 0, h @ [IO (Log Stderr [x])])
         | (Pending, h) \<Rightarrow> (Running, h)))"

section \<open>Reading a history\<close>

text \<open>An action that ignores the history: fixed effects, fixed outcome.\<close>

definition always :: "io list \<Rightarrow> outcome \<Rightarrow> action" where
  "always effects result h = (effects, result)"

text \<open>The names of the actions invoked, the models requested, and the error stream.\<close>

fun invoked :: "event list \<Rightarrow> string list" where
  "invoked [] = []"
| "invoked (Invoke n # es) = n # invoked es"
| "invoked (e # es) = invoked es"

fun fetches :: "event list \<Rightarrow> string list" where
  "fetches [] = []"
| "fetches (IO (Fetch m) # es) = m # fetches es"
| "fetches (e # es) = fetches es"

fun stderr_lines :: "event list \<Rightarrow> js_value list list" where
  "stderr_lines [] = []"
| "stderr_lines (IO (Log Stderr args) # es) = args # stderr_lines es"
| "stderr_lines (e # es) = stderr_lines es"

text \<open>The invocations and settlements of a history, in order.\<close>

fun marks :: "event list \<Rightarrow> event list" where
  "marks [] = []"
| "marks (IO x # es) = marks es"
| "marks (e # es) = e # marks es"

text \<open>
  The strictly sequential schedule of a list of names: each action is invoked and
  settles before the next one is invoked.
\<close>

definition schedule :: "string list \<Rightarrow> event list" where
  "schedule names = concat (map (\<lambda>n. [Invoke n, Settle n]) names)"

text \<open>
  The number of actions in flight after each event of a history, starting from \<open>k\<close>,
  and the largest of these numbers.
\<close>

fun flights :: "nat \<Rightarrow> event list \<Rightarrow> nat list" where
  "flights k [] = []"
| "flights k (Invoke n # es) = Suc k # flights (Suc k) es"
| "flights k (Settle n # es) = (k - 1) # flights (k - 1) es"
| "flights k (IO x # es) = k # flights k es"

definition peak_in_flight :: "event list \<Rightarrow> nat" where
  "peak_in_flight h = foldr max (flights 0 h) 0"

text \<open>The number a string of decimal digits denotes.\<close>

definition digit_value :: "char \<Rightarrow> nat" where
  "digit_value c = of_char c - 48"

definition read_nat :: "string \<Rightarrow> nat" where
  "read_nat s = foldl (\<lambda>acc c. 10 * acc + digit_value c) 0 s"

text \<open>
  The four lines \<open>main\<close> of the starter kit prints before its loop, under the scope of
  an environment.
\<close>

definition banner :: "env \<Rightarrow> event list" where
  "banner e =
     [out (glyph_rocket @ '' Vercel AI SDK v6 + Azure AI Foundry '' @ glyph_dash
             @ '' Starter Kit'' @ nl),
      IO (Log Stdout [JsString ''Endpoint:'', getenv e ''AZURE_API_ENDPOINT'']),
      IO (Log Stdout [JsString ''Primary model:'',
            js_or (getenv e ''AZURE_MODEL_GPT'') (JsString ''gpt-4o'')]),
      IO (Log Stdout [JsString ''Alternative model:'',
            js_or (js_or (getenv e ''AZURE_MODEL_ALT'') (JsString [])) (JsString ''(not set)'')])]"

section \<open>Concrete inputs\<close>

text \<open>An environment with the two required variables and nothing else.\<close>

definition env_required :: env where
  "env_required =
     map_of [(''AZURE_API_ENDPOINT'', ''https://example.test/models''),
             (''AZURE_API_KEY'', ''secret'')]"

text \<open>A remote service that never answers.\<close>

definition silent_service :: generate where
  "silent_service m p h = NoReply"

text \<open>
  The registered tests of the starter kit with only the required variables set, the first
  five actions resolving at once.
\<close>

definition six_tests :: "(string \<times> action) list" where
  "six_tests =
     registered_tests (module_scope env_required) (always [] Resolves) (always [] Resolves)
       (always [] Resolves) (always [] Resolves) (always [] Resolves) silent_service"

text \<open>
  Two tests: \<open>A\<close> resolves, \<open>B\<close> rejects with \<^verbatim>\<open>new Error("boom")\<close>.
\<close>

definition two_tests :: "(string \<times> action) list" where
  "two_tests =
     [(''A'', always [] Resolves),
      (''B'', always [] (Rejects (JsError ''Error'' ''boom'' JsUndefined)))]"

section \<open>Facts about histories\<close>

lemma marks_append: "marks (a @ b) = marks a @ marks b"
  by (induction a rule: marks.induct) auto

lemma marks_map_IO: "marks (map IO xs) = []"
  by (induction xs) auto

lemma marks_divider: "marks (divider t) = []"
  by (simp add: divider_def out_def)

lemma invoked_append: "invoked (a @ b) = invoked a @ invoked b"
  by (induction a rule: invoked.induct) auto

lemma fetches_append: "fetches (a @ b) = fetches a @ fetches b"
  by (induction a rule: fetches.induct) auto

lemma stderr_lines_append: "stderr_lines (a @ b) = stderr_lines a @ stderr_lines b"
  by (induction a rule: stderr_lines.induct) auto

lemma divider_quiet:
  "invoked (divider t) = []" "fetches (divider t) = []" "stderr_lines (divider t) = []"
  by (simp_all add: divider_def out_def)

lemma summary_quiet:
  "invoked (summary t rs) = []" "fetches (summary t rs) = []" "stderr_lines (summary t rs) = []"
  "marks (summary t rs) = []"
  by (induction rs) (simp_all add: summary_def divider_def out_def summary_row_def
       invoked_append fetches_append stderr_lines_append marks_append)

lemma schedule_Cons: "schedule (n # ns) = Invoke n # Settle n # schedule ns"
  by (simp add: schedule_def)

text \<open>Only invocations and settlements change the number of actions in flight.\<close>

lemma peak_marks:
  "max k (foldr max (flights k h) 0) = max k (foldr max (flights k (marks h)) 0)"
  by (induction k h rule: flights.induct) auto

lemma peak_schedule: "foldr max (flights 0 (take j (schedule ns))) 0 \<le> 1"
proof (induction ns arbitrary: j)
  case Nil
  show ?case by (simp add: schedule_def)
next
  case (Cons n ns)
  show ?case
  proof (cases j)
    case 0
    then show ?thesis by simp
  next
    case (Suc i)
    show ?thesis
    proof (cases i)
      case 0
      with Suc show ?thesis by (simp add: schedule_Cons)
    next
      case (Suc l)
      with \<open>j = Suc i\<close> Cons.IH [of l] show ?thesis by (simp add: schedule_Cons)
    qed
  qed
qed

lemma peak_of_prefix:
  assumes "marks h = take k (schedule ns)"
  shows "peak_in_flight h \<le> 1"
proof -
  have "peak_in_flight h = foldr max (flights 0 (marks h)) 0"
    using peak_marks [of 0 h] by (simp add: peak_in_flight_def)
  with assms peak_schedule [of k ns] show ?thesis by simp
qed

section \<open>Facts about printed counts\<close>

lemma digit_value_digit: "d < 10 \<Longrightarrow> digit_value (digit d) = d"
proof -
  assume "d < 10"
  then have "d \<in> {0, 1, 2, 3, 4, 5, 6, 7, 8, 9}" by auto
  then show ?thesis by (auto simp: digit_def digit_value_def)
qed

lemma read_nat_snoc: "read_nat (s @ [c]) = 10 * read_nat s + digit_value c"
  by (simp add: read_nat_def)

text \<open>The digits printed for a count denote that count.\<close>

lemma read_show_nat: "read_nat (show_nat n) = n"
proof (induction n rule: show_nat.induct)
  case (1 n)
  show ?case
  proof (cases "n < 10")
    case True
    then show ?thesis by (simp add: show_nat.simps read_nat_def digit_value_digit)
  next
    case False
    then have "read_nat (show_nat n) =
        10 * read_nat (show_nat (n div 10)) + digit_value (digit (n mod 10))"
      by (subst show_nat.simps) (simp add: read_nat_snoc)
    with False 1 show ?thesis by (simp add: digit_value_digit)
  qed
qed

section \<open>Facts about \<open>runTest\<close> and the loop\<close>

text \<open>
  An action that settles, and does not reject with \<^verbatim>\<open>undefined\<close> or \<^verbatim>\<open>null\<close>, is
  absorbed: \<open>runTest\<close> returns, and returns whether the action resolved.
\<close>

lemma runTest_absorbs:
  assumes "fn (h @ divider n @ [Invoke n]) = (effs, r)"
    and "r \<noteq> Hangs" and "r \<noteq> Rejects JsUndefined" and "r \<noteq> Rejects JsNull"
  shows "fst (runTest n fn h) = Returned (r = Resolves)"
proof (cases r)
  case Resolves
  with assms(1) show ?thesis by (simp add: runTest_def)
next
  case (Rejects e)
  with assms(3,4) have "e \<noteq> JsUndefined" "e \<noteq> JsNull" by auto
  then show ?thesis using assms(1) Rejects
    by (cases e) (simp_all add: runTest_def Let_def)
next
  case Hangs
  with assms(2) show ?thesis by simp
qed

lemma marks_runTest:
  "marks (snd (runTest n fn h)) =
     marks h @ (if fst (runTest n fn h) = Pending then [Invoke n] else [Invoke n, Settle n])"
  by (auto simp: runTest_def Let_def marks_append marks_map_IO marks_divider out_def err_def
           split: prod.splits outcome.splits sum.splits)

lemma run_tests_append:
  "run_tests (ts @ us) rs h = and_then (run_tests ts rs h) (\<lambda>rs' h'. run_tests us rs' h')"
proof (induction ts arbitrary: rs h)
  case Nil
  show ?case by (simp add: and_then_def)
next
  case (Cons t ts)
  obtain n fn where t: "t = (n, fn)" by (cases t)
  obtain r h1 where rt: "runTest n fn h = (r, h1)" by (cases "runTest n fn h")
  show ?case
    by (cases r) (simp_all add: t rt Cons.IH and_then_def)
qed

lemma run_tests_names:
  "run_tests ts rs h = (Returned rs', h') \<Longrightarrow> map name rs' = map name rs @ map fst ts"
proof (induction ts arbitrary: rs h)
  case Nil
  then show ?case by simp
next
  case (Cons t ts)
  obtain n fn where t: "t = (n, fn)" by (cases t)
  obtain r h1 where rt: "runTest n fn h = (r, h1)" by (cases "runTest n fn h")
  from Cons.prems obtain ok where r: "r = Returned ok"
    and rest: "run_tests ts (rs @ [\<lparr>name = n, passed = ok\<rparr>]) h1 = (Returned rs', h')"
    by (cases r) (auto simp: t rt)
  from Cons.IH [OF rest] show ?case by (simp add: t)
qed

text \<open>
  When every registered action settles, and none rejects with \<^verbatim>\<open>undefined\<close> or
  \<^verbatim>\<open>null\<close>, the loop returns one result per test.
\<close>

lemma run_tests_isolation:
  assumes "\<And>n fn h. (n, fn) \<in> set ts \<Longrightarrow>
             snd (fn h) \<noteq> Hangs \<and> snd (fn h) \<noteq> Rejects JsUndefined \<and> snd (fn h) \<noteq> Rejects JsNull"
  shows "\<exists>rs' h'. run_tests ts rs h = (Returned rs', h') \<and> map name rs' = map name rs @ map fst ts"
  using assms
proof (induction ts arbitrary: rs h)
  case Nil
  show ?case by simp
next
  case (Cons t ts)
  obtain n fn where t: "t = (n, fn)" by (cases t)
  obtain effs r where act: "fn (h @ divider n @ [Invoke n]) = (effs, r)"
    by (cases "fn (h @ divider n @ [Invoke n])")
  from Cons.prems [of n fn "h @ divider n @ [Invoke n]"] act t
  have "r \<noteq> Hangs" "r \<noteq> Rejects JsUndefined" "r \<noteq> Rejects JsNull" by auto
  from runTest_absorbs [of fn h n effs r, OF act this] obtain h1 where
    rt: "runTest n fn h = (Returned (r = Resolves), h1)"
    by (cases "runTest n fn h") auto
  have rest: "\<And>n fn h. (n, fn) \<in> set ts \<Longrightarrow>
      snd (fn h) \<noteq> Hangs \<and> snd (fn h) \<noteq> Rejects JsUndefined \<and> snd (fn h) \<noteq> Rejects JsNull"
    using Cons.prems by (meson list.set_intros(2))
  have "\<exists>rs' h'. run_tests ts (rs @ [\<lparr>name = n, passed = (r = Resolves)\<rparr>]) h1 = (Returned rs', h')
      \<and> map name rs' = map name (rs @ [\<lparr>name = n, passed = (r = Resolves)\<rparr>]) @ map fst ts"
    by (rule Cons.IH) (erule rest)
  then obtain rs' h' where
    "run_tests ts (rs @ [\<lparr>name = n, passed = (r = Resolves)\<rparr>]) h1 = (Returned rs', h')"
    "map name rs' = map name (rs @ [\<lparr>name = n, passed = (r = Resolves)\<rparr>]) @ map fst ts"
    by auto
  then show ?case by (simp add: t rt)
qed

lemma marks_run_tests:
  "\<exists>k. marks (snd (run_tests ts rs h)) = marks h @ take k (schedule (map fst ts))"
proof (induction ts arbitrary: rs h)
  case Nil
  show ?case by simp
next
  case (Cons t ts)
  obtain n fn where t: "t = (n, fn)" by (cases t)
  obtain r h' where rt: "runTest n fn h = (r, h')" by (cases "runTest n fn h")
  have m: "marks h' = marks h @ (if r = Pending then [Invoke n] else [Invoke n, Settle n])"
    using marks_runTest [of n fn h] rt by simp
  show ?case
  proof (cases r)
    case (Returned ok)
    from Cons.IH [of "rs @ [\<lparr>name = n, passed = ok\<rparr>]" h'] obtain k where
      "marks (snd (run_tests ts (rs @ [\<lparr>name = n, passed = ok\<rparr>]) h')) =
         marks h' @ take k (schedule (map fst ts))"
      by blast
    with m Returned have "marks (snd (run_tests (t # ts) rs h)) =
        marks h @ take (Suc (Suc k)) (schedule (map fst (t # ts)))"
      by (simp add: t rt schedule_Cons)
    then show ?thesis by blast
  next
    case (Threw e)
    with m have "marks (snd (run_tests (t # ts) rs h)) =
        marks h @ take 2 (schedule (map fst (t # ts)))"
      by (simp add: t rt schedule_Cons)
    then show ?thesis by blast
  next
    case Pending
    with m have "marks (snd (run_tests (t # ts) rs h)) =
        marks h @ take 1 (schedule (map fst (t # ts)))"
      by (simp add: t rt schedule_Cons)
    then show ?thesis by blast
  qed
qed

lemma marks_run_tests_returned:
  "run_tests ts rs h = (Returned rs', h') \<Longrightarrow> marks h' = marks h @ schedule (map fst ts)"
proof (induction ts arbitrary: rs h)
  case Nil
  then show ?case by (simp add: schedule_def)
next
  case (Cons t ts)
  obtain n fn where t: "t = (n, fn)" by (cases t)
  obtain r h1 where rt: "runTest n fn h = (r, h1)" by (cases "runTest n fn h")
  from Cons.prems obtain ok where r: "r = Returned ok"
    and rest: "run_tests ts (rs @ [\<lparr>name = n, passed = ok\<rparr>]) h1 = (Returned rs', h')"
    by (cases r) (auto simp: t rt)
  have "marks h1 = marks h @ [Invoke n, Settle n]"
    using marks_runTest [of n fn h] rt r by simp
  with Cons.IH [OF rest] show ?case by (simp add: t schedule_Cons)
qed

section \<open>Facts about \<open>main\<close>\<close>

lemma main_returned:
  "main sc tests h = (Returned u, h') \<Longrightarrow>
     \<exists>hb rs h1. run_tests tests [] hb = (Returned rs, h1) \<and> h' = h1 @ summary ''Summary'' rs"
  by (auto simp: main_def and_then_def read_ident_def console_log_def
           split: option.splits completion.splits prod.splits)

text \<open>Every identifier \<open>main\<close> reads is declared by the module, so the loop is reached.\<close>

lemma main_runs_loop:
  "\<exists>pre. marks pre = [] \<and>
     main (module_scope e) tests h =
       and_then (run_tests tests [] (h @ pre))
         (\<lambda>rs h'. (Returned (), h' @ summary ''Summary'' rs))"
  by (rule exI [of _
        "[out (glyph_rocket @ '' Vercel AI SDK v6 + Azure AI Foundry '' @ glyph_dash
                 @ '' Starter Kit'' @ nl),
          IO (Log Stdout [JsString ''Endpoint:'', getenv e ''AZURE_API_ENDPOINT'']),
          IO (Log Stdout [JsString ''Primary model:'',
                js_or (getenv e ''AZURE_MODEL_GPT'') (JsString ''gpt-4o'')]),
          IO (Log Stdout [JsString ''Alternative model:'',
                js_or (js_or (getenv e ''AZURE_MODEL_ALT'') (JsString [])) (JsString ''(not set)'')])]"])
     (simp add: main_def and_then_def read_ident_def console_log_def module_scope_def out_def)

lemma marks_main:
  "\<exists>k. marks (snd (main (module_scope e) tests h)) = marks h @ take k (schedule (map fst tests))"
proof -
  obtain pre where pre: "marks pre = []"
    and m: "main (module_scope e) tests h =
       and_then (run_tests tests [] (h @ pre)) (\<lambda>rs h'. (Returned (), h' @ summary ''Summary'' rs))"
    using main_runs_loop by blast
  obtain r h1 where run: "run_tests tests [] (h @ pre) = (r, h1)"
    by (cases "run_tests tests [] (h @ pre)")
  obtain k where k: "marks h1 = marks h @ take k (schedule (map fst tests))"
    using marks_run_tests [of tests "[]" "h @ pre"] run pre by (auto simp: marks_append)
  have "marks (snd (main (module_scope e) tests h)) = marks h1"
    by (cases r) (simp_all add: m run and_then_def marks_append summary_quiet)
  with k show ?thesis by auto
qed

lemma marks_main_returned:
  assumes "fst (main (module_scope e) tests h) = Returned u"
  shows "marks (snd (main (module_scope e) tests h)) = marks h @ schedule (map fst tests)"
proof -
  obtain pre where pre: "marks pre = []"
    and m: "main (module_scope e) tests h =
       and_then (run_tests tests [] (h @ pre)) (\<lambda>rs h'. (Returned (), h' @ summary ''Summary'' rs))"
    using main_runs_loop by blast
  obtain r h1 where run: "run_tests tests [] (h @ pre) = (r, h1)"
    by (cases "run_tests tests [] (h @ pre)")
  from assms obtain rs where r: "r = Returned rs"
    by (cases r) (simp_all add: m run and_then_def)
  from marks_run_tests_returned [of tests "[]" "h @ pre" rs h1] run r pre
  have "marks h1 = marks h @ schedule (map fst tests)" by (simp add: marks_append)
  then show ?thesis by (simp add: m run r and_then_def marks_append summary_quiet)
qed

lemma marks_index_ts:
  "\<exists>k. marks (snd (index_ts e tests)) = take k (schedule (map fst tests))"
proof (cases "\<not> truthy (getenv e ''AZURE_API_ENDPOINT'') \<or> \<not> truthy (getenv e ''AZURE_API_KEY'')")
  case True
  then have "marks (snd (index_ts e tests)) = take 0 (schedule (map fst tests))"
    by (simp add: index_ts_def err_def)
  then show ?thesis by blast
next
  case False
  obtain r h1 where m: "main (module_scope e) tests [] = (r, h1)"
    by (cases "main (module_scope e) tests []")
  from False have "marks (snd (index_ts e tests)) = marks h1"
    by (cases r) (simp_all add: index_ts_def m marks_append)
  with marks_main [of e tests "[]"] m show ?thesis by simp
qed

text \<open>
  In the variant, \<open>main\<close> reads \<^verbatim>\<open>MODEL_GPd\<close>, which no declaration of the module binds:
  it throws after four lines of the banner, whatever the environment and the tests.
\<close>

lemma main_flux_throws:
  "main_flux (module_scope_flux e) tests h =
     (Threw (reference_error ''MODEL_GPd''),
      h @ [out (glyph_rocket @ '' Vercel AI SDK v6 + Azure AI Foundry '' @ glyph_dash
                  @ '' Enhanced Integration Test Suite'' @ nl),
           out ''Configuration:'',
           out (glyph_tee @ '' Text Models Endpoint: '' @ to_string (getenv e ''AZURE_API_ENDPOINT'')),
           out (glyph_tee @ '' Image Model Endpoint: ''
                  @ to_string (js_or (getenv e ''FLUX_ENDPOINT'')
                       (JsString ''https://jai-omi.openai.azure.com/openai/v1/'')))])"
  by (simp add: main_flux_def and_then_def read_ident_def console_log_def module_scope_flux_def out_def)

section \<open>Facts about the alternative-model test\<close>

lemma skip_action:
  assumes "e ''AZURE_MODEL_ALT'' = None \<or> e ''AZURE_MODEL_ALT'' = Some []"
  shows "testAlternativeModel (module_scope e) g h = ([Log Stdout [JsString skip_notice]], Resolves)"
  using assms by (auto simp: testAlternativeModel_def module_scope_def getenv_def js_or_def)

lemma skip_runTest:
  assumes "e ''AZURE_MODEL_ALT'' = None \<or> e ''AZURE_MODEL_ALT'' = Some []"
  shows "runTest n (testAlternativeModel (module_scope e) g) h =
     (Returned True,
      h @ divider n @
        [Invoke n, IO (Log Stdout [JsString skip_notice]), Settle n,
         out (nl @ glyph_pass @ ''  '' @ n @ '' '' @ glyph_dash @ '' PASSED'')])"
  by (simp add: runTest_def skip_action [of e, OF assms])

lemma registered_split:
  "registered_tests sc t1 t2 t3 t4 t5 g =
     [(''1. Generate Text (Foundry Provider)'', t1),
      (''2. Stream Text (Foundry Provider)'', t2),
      (''3. Multi-turn Conversation'', t3),
      (''4. Tool Calling (@ai-sdk/openai)'', t4),
      (''5. OpenAI-Compatible Provider'', t5)]
     @ [(''6. Alternative Model'', testAlternativeModel sc g)]"
  by (simp add: registered_tests_def)

lemma six_pass_run:
  "fst (run_tests six_tests [] []) =
     Returned
       [\<lparr>name = ''1. Generate Text (Foundry Provider)'', passed = True\<rparr>,
        \<lparr>name = ''2. Stream Text (Foundry Provider)'', passed = True\<rparr>,
        \<lparr>name = ''3. Multi-turn Conversation'', passed = True\<rparr>,
        \<lparr>name = ''4. Tool Calling (@ai-sdk/openai)'', passed = True\<rparr>,
        \<lparr>name = ''5. OpenAI-Compatible Provider'', passed = True\<rparr>,
        \<lparr>name = ''6. Alternative Model'', passed = True\<rparr>]"
  by (simp add: six_tests_def registered_tests_def runTest_def always_def testAlternativeModel_def
        module_scope_def env_required_def getenv_def js_or_def)

lemma index_ts_returned:
  assumes "truthy (getenv e ''AZURE_API_ENDPOINT'')" and "truthy (getenv e ''AZURE_API_KEY'')"
    and "fst (main (module_scope e) tests []) = Returned u"
  shows "index_ts e tests = (Exited 0, snd (main (module_scope e) tests []))"
  using assms by (auto simp: index_ts_def split: prod.splits completion.splits)

lemma env_required_ok:
  "truthy (getenv env_required ''AZURE_API_ENDPOINT'')" "truthy (getenv env_required ''AZURE_API_KEY'')"
  by (simp_all add: env_required_def getenv_def)

lemma two_tests_main:
  "main (module_scope env_required) two_tests [] =
     (Returned (),
      [out (glyph_rocket @ '' Vercel AI SDK v6 + Azure AI Foundry '' @ glyph_dash
              @ '' Starter Kit'' @ nl),
       IO (Log Stdout [JsString ''Endpoint:'', JsString ''https://example.test/models'']),
       IO (Log Stdout [JsString ''Primary model:'', JsString ''gpt-4o'']),
       IO (Log Stdout [JsString ''Alternative model:'', JsString ''(not set)''])]
      @ divider ''A'' @
        [Invoke ''A'', Settle ''A'',
         out (nl @ glyph_pass @ ''  A '' @ glyph_dash @ '' PASSED'')]
      @ divider ''B'' @
        [Invoke ''B'', Settle ''B'',
         err (nl @ glyph_fail @ ''  B '' @ glyph_dash @ '' FAILED''),
         err ''    boom'']
      @ summary ''Summary'' [\<lparr>name = ''A'', passed = True\<rparr>, \<lparr>name = ''B'', passed = False\<rparr>])"
  by (simp add: two_tests_def main_def and_then_def read_ident_def console_log_def module_scope_def
        env_required_def getenv_def js_or_def runTest_def always_def out_def)

section \<open>Facts about the order of events\<close>

text \<open>
  The history \<open>runTest\<close> leaves: the header, the invocation, then what the action itself
  did on the history it was given, then the settlement (unless the action hangs) and the
  harness's own lines.
\<close>

lemma marks_banner: "marks (banner e) = []"
  by (simp add: banner_def out_def)

lemma main_loop_banner:
  "main (module_scope e) tests h =
     and_then (run_tests tests [] (h @ banner e))
       (\<lambda>rs h'. (Returned (), h' @ summary ''Summary'' rs))"
  by (simp add: main_def and_then_def read_ident_def console_log_def module_scope_def out_def
        banner_def)

lemma runTest_bracket:
  "\<exists>tail. snd (runTest n fn h) =
            h @ divider n @ [Invoke n] @ map IO (fst (fn (h @ divider n @ [Invoke n]))) @ tail
        \<and> marks tail = (if snd (fn (h @ divider n @ [Invoke n])) = Hangs then [] else [Settle n])
        \<and> (snd (fn (h @ divider n @ [Invoke n])) = Hangs \<longrightarrow> tail = [])
        \<and> (fst (runTest n fn h) = Pending \<longleftrightarrow> snd (fn (h @ divider n @ [Invoke n])) = Hangs)"
proof -
  obtain effs r where act: "fn (h @ divider n @ [Invoke n]) = (effs, r)"
    by (cases "fn (h @ divider n @ [Invoke n])")
  show ?thesis
  proof (cases r)
    case Resolves
    with act show ?thesis by (simp add: runTest_def out_def)
  next
    case Hangs
    with act show ?thesis by (simp add: runTest_def)
  next
    case (Rejects x)
    with act show ?thesis
      by (cases x) (simp_all add: runTest_def Let_def out_def err_def)
  qed
qed

lemma run_tests_extends:
  "\<exists>d k. snd (run_tests ts rs h) = h @ d \<and> marks d = take k (schedule (map fst ts))
"
proof (induction ts arbitrary: rs h)
  case Nil
  have "snd (run_tests [] rs h) = h @ [] \<and> marks [] = take 0 (schedule (map fst []))" by simp
  then show ?case by blast
next
  case (Cons t ts)
  obtain n fn where t: "t = (n, fn)" by (cases t)
  obtain r h1 where rt: "runTest n fn h = (r, h1)" by (cases "runTest n fn h")
  from runTest_bracket [of n fn h] rt obtain tail where
    h1: "h1 = h @ divider n @ [Invoke n] @ map IO (fst (fn (h @ divider n @ [Invoke n]))) @ tail"
    and mt: "marks tail = (if r = Pending then [] else [Settle n])"
    by auto
  have m1: "marks (divider n @ [Invoke n] @ map IO (fst (fn (h @ divider n @ [Invoke n]))) @ tail)
      = Invoke n # (if r = Pending then [] else [Settle n])"
    by (simp add: marks_append marks_divider marks_map_IO mt)
  show ?case
  proof (cases r)
    case (Returned ok)
    from Cons.IH [of "rs @ [\<lparr>name = n, passed = ok\<rparr>]" h1] obtain d k where
      d: "snd (run_tests ts (rs @ [\<lparr>name = n, passed = ok\<rparr>]) h1) = h1 @ d"
      and k: "marks d = take k (schedule (map fst ts))"
      by blast
    have "snd (run_tests (t # ts) rs h) =
        h @ ((divider n @ [Invoke n] @ map IO (fst (fn (h @ divider n @ [Invoke n]))) @ tail) @ d)"
      using d by (simp add: t rt Returned h1)
    moreover have "marks ((divider n @ [Invoke n] @ map IO (fst (fn (h @ divider n @ [Invoke n]))) @ tail) @ d)
        = take (Suc (Suc k)) (schedule (map fst (t # ts)))"
      using m1 k Returned by (simp add: marks_append [of "_ @ _"] t schedule_Cons del: append_assoc)
    ultimately show ?thesis by blast
  next
    case (Threw x)
    have "snd (run_tests (t # ts) rs h) =
        h @ (divider n @ [Invoke n] @ map IO (fst (fn (h @ divider n @ [Invoke n]))) @ tail)"
      by (simp add: t rt Threw h1)
    moreover have "marks (divider n @ [Invoke n] @ map IO (fst (fn (h @ divider n @ [Invoke n]))) @ tail)
        = take 2 (schedule (map fst (t # ts)))"
      using m1 Threw by (simp add: t schedule_Cons)
    ultimately show ?thesis by blast
  next
    case Pending
    have "snd (run_tests (t # ts) rs h) =
        h @ (divider n @ [Invoke n] @ map IO (fst (fn (h @ divider n @ [Invoke n]))) @ tail)"
      by (simp add: t rt Pending h1)
    moreover have "marks (divider n @ [Invoke n] @ map IO (fst (fn (h @ divider n @ [Invoke n]))) @ tail)
        = take 1 (schedule (map fst (t # ts)))"
      using m1 Pending by (simp add: t schedule_Cons)
    ultimately show ?thesis by blast
  qed
qed


lemma run_tests_stops:
  assumes "\<And>rs'. fst (run_tests ts rs h) \<noteq> Returned rs'"
  shows "run_tests (ts @ us) rs h = run_tests ts rs h"
proof -
  obtain r h1 where run: "run_tests ts rs h = (r, h1)" by (cases "run_tests ts rs h")
  from assms run have nr: "\<And>rs'. r \<noteq> Returned rs'" by (metis fst_conv)
  show ?thesis
  proof (cases r)
    case (Returned x)
    with nr [of x] show ?thesis by simp
  next
    case (Threw x)
    with run show ?thesis by (simp add: run_tests_append and_then_def)
  next
    case Pending
    with run show ?thesis by (simp add: run_tests_append and_then_def)
  qed
qed

lemma run_tests_segment:
  assumes "run_tests pre [] h0 = (Returned rs, h1)"
  shows "\<exists>rest. snd (run_tests (pre @ (n, fn) # post) [] h0) =
            h1 @ divider n @ [Invoke n] @ map IO (fst (fn (h1 @ divider n @ [Invoke n]))) @ rest
        \<and> prefix (marks rest) (Settle n # schedule (map fst post))
        \<and> (snd (fn (h1 @ divider n @ [Invoke n])) = Hangs \<longrightarrow>
              rest = [] \<and> fst (run_tests (pre @ (n, fn) # post) [] h0) = Pending)
        \<and> (snd (fn (h1 @ divider n @ [Invoke n])) \<noteq> Hangs \<longrightarrow> prefix [Settle n] (marks rest))"
proof -
  let ?effs = "map IO (fst (fn (h1 @ divider n @ [Invoke n])))"
  let ?out = "snd (fn (h1 @ divider n @ [Invoke n]))"
  have whole: "run_tests (pre @ (n, fn) # post) [] h0 = run_tests ((n, fn) # post) rs h1"
    by (simp add: run_tests_append assms and_then_def)
  obtain r h2 where rt: "runTest n fn h1 = (r, h2)" by (cases "runTest n fn h1")
  from runTest_bracket [of n fn h1] rt obtain tail where
    h2: "h2 = h1 @ divider n @ [Invoke n] @ ?effs @ tail"
    and mt: "marks tail = (if ?out = Hangs then [] else [Settle n])"
    and hang: "?out = Hangs \<longrightarrow> tail = []"
    and pend: "r = Pending \<longleftrightarrow> ?out = Hangs"
    by auto
  show ?thesis
  proof (cases r)
    case (Returned ok)
    from run_tests_extends [of post "rs @ [\<lparr>name = n, passed = ok\<rparr>]" h2] obtain d k where
      d: "snd (run_tests post (rs @ [\<lparr>name = n, passed = ok\<rparr>]) h2) = h2 @ d"
      and k: "marks d = take k (schedule (map fst post))"
      by blast
    from Returned pend have nh: "?out \<noteq> Hangs" by simp
    have "snd (run_tests (pre @ (n, fn) # post) [] h0) = h2 @ d"
      by (simp add: whole rt Returned d)
    then have "snd (run_tests (pre @ (n, fn) # post) [] h0) =
        h1 @ divider n @ [Invoke n] @ ?effs @ (tail @ d)"
      by (simp add: h2)
    moreover have "marks (tail @ d) = Settle n # take k (schedule (map fst post))"
      using mt nh k by (simp add: marks_append)
    ultimately show ?thesis using nh by (auto simp: take_is_prefix)
  next
    case (Threw x)
    from Threw pend have nh: "?out \<noteq> Hangs" by simp
    have "snd (run_tests (pre @ (n, fn) # post) [] h0) =
        h1 @ divider n @ [Invoke n] @ ?effs @ tail"
      by (simp add: whole rt Threw h2)
    moreover have "marks tail = [Settle n]" using mt nh by simp
    ultimately show ?thesis using nh by auto
  next
    case Pending
    with pend hang have "?out = Hangs" "tail = []" by simp_all
    moreover have "run_tests (pre @ (n, fn) # post) [] h0 = (Pending, h2)"
      by (simp add: whole rt Pending)
    ultimately show ?thesis by (simp add: h2)
  qed
qed

lemma index_ts_loop:
  assumes "truthy (getenv e ''AZURE_API_ENDPOINT'')" and "truthy (getenv e ''AZURE_API_KEY'')"
  shows "\<exists>sfx. snd (index_ts e tests) = snd (run_tests tests [] (banner e)) @ sfx
        \<and> marks sfx = []
        \<and> (fst (run_tests tests [] (banner e)) = Pending \<longrightarrow> sfx = [])"
proof -
  obtain r h1 where run: "run_tests tests [] (banner e) = (r, h1)"
    by (cases "run_tests tests [] (banner e)")
  show ?thesis
  proof (cases r)
    case (Returned rs)
    with assms run have "snd (index_ts e tests) = h1 @ summary ''Summary'' rs"
      by (simp add: index_ts_def main_loop_banner [of e tests "[]"] and_then_def)
    with run Returned show ?thesis by (simp add: summary_quiet)
  next
    case (Threw x)
    with assms run have "snd (index_ts e tests) = h1 @ [IO (Log Stderr [x])]"
      by (simp add: index_ts_def main_loop_banner [of e tests "[]"] and_then_def)
    with run Threw show ?thesis by simp
  next
    case Pending
    with assms run have "snd (index_ts e tests) = h1"
      by (simp add: index_ts_def main_loop_banner [of e tests "[]"] and_then_def)
    with run Pending show ?thesis by simp
  qed
qed

lemma index_ts_segment:
  assumes "truthy (getenv e ''AZURE_API_ENDPOINT'')" and "truthy (getenv e ''AZURE_API_KEY'')"
    and "run_tests pre [] (banner e) = (Returned rs, h1)"
  shows "marks h1 = schedule (map fst pre)
       \<and> (\<exists>rest. snd (index_ts e (pre @ (n, fn) # post)) =
              h1 @ divider n @ [Invoke n] @ map IO (fst (fn (h1 @ divider n @ [Invoke n]))) @ rest
            \<and> prefix (marks rest) (Settle n # schedule (map fst post))
            \<and> (snd (fn (h1 @ divider n @ [Invoke n])) = Hangs \<longrightarrow> rest = [])
            \<and> (snd (fn (h1 @ divider n @ [Invoke n])) \<noteq> Hangs \<longrightarrow> prefix [Settle n] (marks rest)))"
proof
  show "marks h1 = schedule (map fst pre)"
    using marks_run_tests_returned [OF assms(3)] by (simp add: marks_banner)
  let ?tests = "pre @ (n, fn) # post"
  let ?out = "snd (fn (h1 @ divider n @ [Invoke n]))"
  from run_tests_segment [OF assms(3), of n fn post] obtain rest where
    seg: "snd (run_tests ?tests [] (banner e)) =
            h1 @ divider n @ [Invoke n] @ map IO (fst (fn (h1 @ divider n @ [Invoke n]))) @ rest"
    and pre: "prefix (marks rest) (Settle n # schedule (map fst post))"
    and hang: "?out = Hangs \<longrightarrow> rest = [] \<and> fst (run_tests ?tests [] (banner e)) = Pending"
    and settle: "?out \<noteq> Hangs \<longrightarrow> prefix [Settle n] (marks rest)"
    by blast
  from index_ts_loop [OF assms(1,2), of ?tests] obtain sfx where
    whole: "snd (index_ts e ?tests) = snd (run_tests ?tests [] (banner e)) @ sfx"
    and quiet: "marks sfx = []"
    and stop: "fst (run_tests ?tests [] (banner e)) = Pending \<longrightarrow> sfx = []"
    by blast
  have "snd (index_ts e ?tests) =
      h1 @ divider n @ [Invoke n] @ map IO (fst (fn (h1 @ divider n @ [Invoke n]))) @ (rest @ sfx)"
    by (simp add: whole seg)
  moreover have "prefix (marks (rest @ sfx)) (Settle n # schedule (map fst post))"
    using pre quiet by (simp add: marks_append)
  moreover have "?out = Hangs \<longrightarrow> rest @ sfx = []" using hang stop by simp
  moreover have "?out \<noteq> Hangs \<longrightarrow> prefix [Settle n] (marks (rest @ sfx))"
    using settle quiet by (simp add: marks_append)
  ultimately show "\<exists>rest. snd (index_ts e (pre @ (n, fn) # post)) =
              h1 @ divider n @ [Invoke n] @ map IO (fst (fn (h1 @ divider n @ [Invoke n]))) @ rest
            \<and> prefix (marks rest) (Settle n # schedule (map fst post))
            \<and> (snd (fn (h1 @ divider n @ [Invoke n])) = Hangs \<longrightarrow> rest = [])
            \<and> (snd (fn (h1 @ divider n @ [Invoke n])) \<noteq> Hangs \<longrightarrow> prefix [Settle n] (marks rest))"
    by blast
qed

section \<open>The claims\<close>

text \<open>
  C1 (isolation: one result per test, a failing action never stops the later ones).
  The code breaks this when an action rejects with \<^verbatim>\<open>null\<close> or \<^verbatim>\<open>undefined\<close>: the
  \<^verbatim>\<open>catch\<close> block of \<open>runTest\<close> throws on \<^verbatim>\<open>err.message\<close>, the loop of \<open>main\<close> ends,
  and the next action is never invoked. Here \<open>A\<close> rejects with \<^verbatim>\<open>null\<close> and \<open>B\<close>
  would resolve: \<open>main\<close> rejects with the \<^verbatim>\<open>TypeError\<close>, only \<open>A\<close> was invoked, and no
  summary is printed.
\<close>

theorem nullish_rejection_aborts_run:
  "main (module_scope env_required)
      [(''A'', always [] (Rejects JsNull)), (''B'', always [] Resolves)] [] =
     (Threw (type_error_read JsNull ''message''),
      [out (glyph_rocket @ '' Vercel AI SDK v6 + Azure AI Foundry '' @ glyph_dash
              @ '' Starter Kit'' @ nl),
       IO (Log Stdout [JsString ''Endpoint:'', JsString ''https://example.test/models'']),
       IO (Log Stdout [JsString ''Primary model:'', JsString ''gpt-4o'']),
       IO (Log Stdout [JsString ''Alternative model:'', JsString ''(not set)''])]
      @ divider ''A'' @
        [Invoke ''A'', Settle ''A'',
         err (nl @ glyph_fail @ ''  A '' @ glyph_dash @ '' FAILED'')])
   \<and> invoked (snd (main (module_scope env_required)
        [(''A'', always [] (Rejects JsNull)), (''B'', always [] Resolves)] [])) = [''A'']"
proof -
  have run: "main (module_scope env_required)
      [(''A'', always [] (Rejects JsNull)), (''B'', always [] Resolves)] [] =
     (Threw (type_error_read JsNull ''message''),
      [out (glyph_rocket @ '' Vercel AI SDK v6 + Azure AI Foundry '' @ glyph_dash
              @ '' Starter Kit'' @ nl),
       IO (Log Stdout [JsString ''Endpoint:'', JsString ''https://example.test/models'']),
       IO (Log Stdout [JsString ''Primary model:'', JsString ''gpt-4o'']),
       IO (Log Stdout [JsString ''Alternative model:'', JsString ''(not set)''])]
      @ divider ''A'' @
        [Invoke ''A'', Settle ''A'',
         err (nl @ glyph_fail @ ''  A '' @ glyph_dash @ '' FAILED'')])"
    by (simp add: main_def and_then_def read_ident_def console_log_def module_scope_def
          env_required_def getenv_def js_or_def runTest_def always_def out_def)
  show ?thesis
    by (simp add: run invoked_append divider_quiet out_def err_def)
qed

text \<open>
  C2 (\<open>runTest\<close> absorbs every failure of the action and returns \<open>false\<close>). The code
  breaks this when the action rejects with \<^verbatim>\<open>undefined\<close>: after the failure line, the
  read of \<^verbatim>\<open>err.message\<close> throws a \<^verbatim>\<open>TypeError\<close> inside the \<^verbatim>\<open>catch\<close> block, and that
  error leaves \<open>runTest\<close> instead of a boolean.
\<close>

theorem runTest_nullish_rejection_escapes:
  "runTest ''B'' (always [] (Rejects JsUndefined)) [] =
     (Threw (type_error_read JsUndefined ''message''),
      divider ''B'' @
        [Invoke ''B'', Settle ''B'',
         err (nl @ glyph_fail @ ''  B '' @ glyph_dash @ '' FAILED'')])"
  by (simp add: runTest_def always_def)

text \<open>
  C3 (pre-flight gate). When the endpoint or the key is absent or empty, either variant
  prints the diagnostic on the error stream and exits with status 1; nothing else happens:
  no action is invoked and no request is made.
\<close>

theorem preflight_gate:
  assumes "e ''AZURE_API_ENDPOINT'' = None \<or> e ''AZURE_API_ENDPOINT'' = Some []
         \<or> e ''AZURE_API_KEY'' = None \<or> e ''AZURE_API_KEY'' = Some []"
  shows "index_ts e tests = (Exited 1, [err missing_config])
       \<and> index_with_flux_ts e tests = (Exited 1, [err missing_config])
       \<and> invoked (snd (index_ts e tests)) = []
       \<and> fetches (snd (index_ts e tests)) = []
       \<and> invoked (snd (index_with_flux_ts e tests)) = []
       \<and> fetches (snd (index_with_flux_ts e tests)) = []"
proof -
  from assms have "\<not> truthy (getenv e ''AZURE_API_ENDPOINT'') \<or> \<not> truthy (getenv e ''AZURE_API_KEY'')"
    by (auto simp: getenv_def)
  then have "index_ts e tests = (Exited 1, [err missing_config])"
    and "index_with_flux_ts e tests = (Exited 1, [err missing_config])"
    by (auto simp: index_ts_def index_with_flux_ts_def)
  then show ?thesis by (simp add: err_def)
qed

text \<open>
  Witness of C3: no variable at all for the starter kit, and an empty key for the variant;
  the registered action would have made a request.
\<close>

theorem preflight_gate_witness:
  "index_ts Map.empty [(''A'', always [Fetch ''gpt-4o''] Resolves)] = (Exited 1, [err missing_config])
   \<and> index_with_flux_ts
        (map_of [(''AZURE_API_ENDPOINT'', ''https://example.test/models''), (''AZURE_API_KEY'', [])])
        [(''A'', always [Fetch ''gpt-4o''] Resolves)] = (Exited 1, [err missing_config])"
  using preflight_gate [of Map.empty "[(''A'', always [Fetch ''gpt-4o''] Resolves)]"]
    preflight_gate [of "map_of [(''AZURE_API_ENDPOINT'', ''https://example.test/models''),
                                (''AZURE_API_KEY'', [])]"
       "[(''A'', always [Fetch ''gpt-4o''] Resolves)]"]
  by simp

text \<open>
  C4 (summary arithmetic). When \<open>main\<close> returns, the loop returned a result sequence with
  one entry per registered name, and the last line printed is the tally of that sequence:
  the digits before the slash denote the number of entries with \<open>passed\<close> true, the digits
  after it the length of the sequence.
\<close>

theorem summary_arithmetic:
  assumes "main sc tests h = (Returned (), h')"
  shows "\<exists>hb rs h1.
           run_tests tests [] hb = (Returned rs, h1)
         \<and> map name rs = map fst tests
         \<and> h' = h1 @ summary ''Summary'' rs
         \<and> last h' = out (nl @ ''  '' @ show_nat (length (filter passed rs)) @ ''/''
                            @ show_nat (length rs) @ '' tests passed'')
         \<and> read_nat (show_nat (length (filter passed rs))) = length (filter passed rs)
         \<and> read_nat (show_nat (length rs)) = length rs"
proof -
  from main_returned [OF assms] obtain hb rs h1 where
    run: "run_tests tests [] hb = (Returned rs, h1)" and h': "h' = h1 @ summary ''Summary'' rs"
    by blast
  have names: "map name rs = map fst tests" using run_tests_names [OF run] by simp
  have tally: "last h' = out (nl @ ''  '' @ show_nat (length (filter passed rs)) @ ''/''
                            @ show_nat (length rs) @ '' tests passed'')"
    by (simp add: h' summary_def tally_line_def)
  show ?thesis
    by (intro exI [of _ hb] exI [of _ rs] exI [of _ h1] conjI run names h' tally read_show_nat)
qed

text \<open>Witness of C4: the run of the two tests \<open>A\<close> and \<open>B\<close>.\<close>

theorem summary_arithmetic_witness:
  "\<exists>hb rs h1.
     run_tests two_tests [] hb = (Returned rs, h1)
   \<and> map name rs = map fst two_tests
   \<and> last (snd (main (module_scope env_required) two_tests [])) =
       out (nl @ ''  '' @ show_nat (length (filter passed rs)) @ ''/''
              @ show_nat (length rs) @ '' tests passed'')"
proof -
  have "main (module_scope env_required) two_tests [] =
      (Returned (), snd (main (module_scope env_required) two_tests []))"
    by (simp add: two_tests_main)
  from summary_arithmetic [OF this] show ?thesis by blast
qed

text \<open>
  C5, as amended. When \<^verbatim>\<open>AZURE_MODEL_ALT\<close> is unset or empty, the alternative-model test
  makes no request and resolves after printing the skip notice; \<open>runTest\<close> then prints the
  pass line for it and returns \<open>true\<close>, and a run that completes records it as the sixth
  result with \<open>passed\<close> true. The skip is recorded as a pass, not as a third outcome.
\<close>

theorem alt_model_skip:
  assumes "e ''AZURE_MODEL_ALT'' = None \<or> e ''AZURE_MODEL_ALT'' = Some []"
  shows "testAlternativeModel (module_scope e) g h = ([Log Stdout [JsString skip_notice]], Resolves)
       \<and> runTest ''6. Alternative Model'' (testAlternativeModel (module_scope e) g) h =
           (Returned True,
            h @ divider ''6. Alternative Model'' @
              [Invoke ''6. Alternative Model'', IO (Log Stdout [JsString skip_notice]),
               Settle ''6. Alternative Model'',
               out (nl @ glyph_pass @ ''  6. Alternative Model '' @ glyph_dash @ '' PASSED'')])
       \<and> (run_tests (registered_tests (module_scope e) t1 t2 t3 t4 t5 g) [] h = (Returned rs, h')
            \<longrightarrow> length rs = 6 \<and> rs ! 5 = \<lparr>name = ''6. Alternative Model'', passed = True\<rparr>)"
proof (intro conjI impI)
  show "testAlternativeModel (module_scope e) g h = ([Log Stdout [JsString skip_notice]], Resolves)"
    by (rule skip_action [of e, OF assms])
  show "runTest ''6. Alternative Model'' (testAlternativeModel (module_scope e) g) h =
           (Returned True,
            h @ divider ''6. Alternative Model'' @
              [Invoke ''6. Alternative Model'', IO (Log Stdout [JsString skip_notice]),
               Settle ''6. Alternative Model'',
               out (nl @ glyph_pass @ ''  6. Alternative Model '' @ glyph_dash @ '' PASSED'')])"
    using skip_runTest [of e "''6. Alternative Model''" g h, OF assms] by simp
next
  assume run: "run_tests (registered_tests (module_scope e) t1 t2 t3 t4 t5 g) [] h = (Returned rs, h')"
  let ?five = "[(''1. Generate Text (Foundry Provider)'', t1),
      (''2. Stream Text (Foundry Provider)'', t2),
      (''3. Multi-turn Conversation'', t3),
      (''4. Tool Calling (@ai-sdk/openai)'', t4),
      (''5. OpenAI-Compatible Provider'', t5)]"
  obtain r5 h5 where five: "run_tests ?five [] h = (r5, h5)" by (cases "run_tests ?five [] h")
  from run obtain rs5 where r5: "r5 = Returned rs5"
    and last: "run_tests [(''6. Alternative Model'', testAlternativeModel (module_scope e) g)] rs5 h5
               = (Returned rs, h')"
    unfolding registered_split run_tests_append five
    by (cases r5) (simp_all add: and_then_def)
  from five r5 have "map name rs5 = map fst ?five" using run_tests_names by fastforce
  then have len5: "length rs5 = 5" using length_map [of name rs5] by simp
  from last have rs: "rs = rs5 @ [\<lparr>name = ''6. Alternative Model'', passed = True\<rparr>]"
    by (simp add: skip_runTest [of e, OF assms])
  show "length rs = 6" by (simp add: rs len5)
  show "rs ! 5 = \<lparr>name = ''6. Alternative Model'', passed = True\<rparr>"
    using len5 by (simp add: rs nth_append)
qed

text \<open>
  Witness of C5: the required variables only, five actions that resolve, and a service
  that would never answer if it were called.
\<close>

theorem alt_model_skip_witness:
  "testAlternativeModel (module_scope env_required) silent_service [] =
     ([Log Stdout [JsString skip_notice]], Resolves)
   \<and> fst (runTest ''6. Alternative Model''
            (testAlternativeModel (module_scope env_required) silent_service) []) = Returned True
   \<and> (\<exists>rs. fst (run_tests six_tests [] []) = Returned rs \<and> length rs = 6
          \<and> rs ! 5 = \<lparr>name = ''6. Alternative Model'', passed = True\<rparr>)"
proof -
  have unset: "env_required ''AZURE_MODEL_ALT'' = None \<or> env_required ''AZURE_MODEL_ALT'' = Some []"
    by (simp add: env_required_def)
  obtain rs h' where run: "run_tests six_tests [] [] = (Returned rs, h')"
    using six_pass_run by (cases "run_tests six_tests [] []") auto
  note skip = alt_model_skip [of env_required silent_service "[]" "always [] Resolves"
      "always [] Resolves" "always [] Resolves" "always [] Resolves" "always [] Resolves" rs h',
      OF unset]
  from skip run have "length rs = 6 \<and> rs ! 5 = \<lparr>name = ''6. Alternative Model'', passed = True\<rparr>"
    by (simp add: six_tests_def)
  with skip run show ?thesis by simp
qed

text \<open>
  Counterexample to C5 as stated ("recorded as neither pass nor fail"): in that run the
  result sequence holds the sixth test with \<open>passed\<close> true, like the five that ran.
\<close>

theorem skip_recorded_as_pass:
  "fst (run_tests six_tests [] []) =
     Returned
       [\<lparr>name = ''1. Generate Text (Foundry Provider)'', passed = True\<rparr>,
        \<lparr>name = ''2. Stream Text (Foundry Provider)'', passed = True\<rparr>,
        \<lparr>name = ''3. Multi-turn Conversation'', passed = True\<rparr>,
        \<lparr>name = ''4. Tool Calling (@ai-sdk/openai)'', passed = True\<rparr>,
        \<lparr>name = ''5. OpenAI-Compatible Provider'', passed = True\<rparr>,
        \<lparr>name = ''6. Alternative Model'', passed = True\<rparr>]"
  by (rule six_pass_run)

text \<open>
  C6 (concrete scenario). With the required configuration, \<open>A\<close> resolving and \<open>B\<close>
  rejecting with message \<^verbatim>\<open>boom\<close>: the process ends with status 0 after exactly the
  history below. Its summary prints \<open>A\<close> as passed and \<open>B\<close> as failed, and its last
  line, printed once, reads \<^verbatim>\<open>1/2 tests passed\<close> (after a line break and two spaces);
  the loop's results are \<open>A\<close> passed, \<open>B\<close> failed; and the error stream holds the
  failure line of \<open>B\<close> and \<^verbatim>\<open>boom\<close>, once.
\<close>

theorem concrete_scenario:
  "index_ts env_required two_tests =
     (Exited 0,
      [out (glyph_rocket @ '' Vercel AI SDK v6 + Azure AI Foundry '' @ glyph_dash
              @ '' Starter Kit'' @ nl),
       IO (Log Stdout [JsString ''Endpoint:'', JsString ''https://example.test/models'']),
       IO (Log Stdout [JsString ''Primary model:'', JsString ''gpt-4o'']),
       IO (Log Stdout [JsString ''Alternative model:'', JsString ''(not set)''])]
      @ divider ''A'' @
        [Invoke ''A'', Settle ''A'',
         out (nl @ glyph_pass @ ''  A '' @ glyph_dash @ '' PASSED'')]
      @ divider ''B'' @
        [Invoke ''B'', Settle ''B'',
         err (nl @ glyph_fail @ ''  B '' @ glyph_dash @ '' FAILED''),
         err ''    boom'']
      @ divider ''Summary'' @
        [out (''  '' @ glyph_pass @ ''  A''),
         out (''  '' @ glyph_fail @ ''  B''),
         out (nl @ ''  1/2 tests passed'')])
   \<and> last (snd (index_ts env_required two_tests)) = out (nl @ ''  1/2 tests passed'')
   \<and> fst (run_tests two_tests [] []) =
       Returned [\<lparr>name = ''A'', passed = True\<rparr>, \<lparr>name = ''B'', passed = False\<rparr>]
   \<and> tally_line [\<lparr>name = ''A'', passed = True\<rparr>, \<lparr>name = ''B'', passed = False\<rparr>] =
       nl @ ''  1/2 tests passed''
   \<and> stderr_lines (snd (index_ts env_required two_tests)) =
       [[JsString (nl @ glyph_fail @ ''  B '' @ glyph_dash @ '' FAILED'')],
        [JsString ''    boom'']]"
proof -
  have m: "fst (main (module_scope env_required) two_tests []) = Returned ()"
    by (simp add: two_tests_main)
  have folded: "index_ts env_required two_tests =
      (Exited 0, snd (main (module_scope env_required) two_tests []))"
    by (rule index_ts_returned [OF env_required_ok(1) env_required_ok(2) m])
  have run: "index_ts env_required two_tests =
     (Exited 0,
      [out (glyph_rocket @ '' Vercel AI SDK v6 + Azure AI Foundry '' @ glyph_dash
              @ '' Starter Kit'' @ nl),
       IO (Log Stdout [JsString ''Endpoint:'', JsString ''https://example.test/models'']),
       IO (Log Stdout [JsString ''Primary model:'', JsString ''gpt-4o'']),
       IO (Log Stdout [JsString ''Alternative model:'', JsString ''(not set)''])]
      @ divider ''A'' @
        [Invoke ''A'', Settle ''A'',
         out (nl @ glyph_pass @ ''  A '' @ glyph_dash @ '' PASSED'')]
      @ divider ''B'' @
        [Invoke ''B'', Settle ''B'',
         err (nl @ glyph_fail @ ''  B '' @ glyph_dash @ '' FAILED''),
         err ''    boom'']
      @ divider ''Summary'' @
        [out (''  '' @ glyph_pass @ ''  A''),
         out (''  '' @ glyph_fail @ ''  B''),
         out (nl @ ''  1/2 tests passed'')])"
    by (simp add: folded two_tests_main summary_def summary_row_def tally_line_def
          show_nat.simps digit_def)
  have final: "last (snd (index_ts env_required two_tests)) = out (nl @ ''  1/2 tests passed'')"
    by (simp add: run)
  have res: "fst (run_tests two_tests [] []) =
       Returned [\<lparr>name = ''A'', passed = True\<rparr>, \<lparr>name = ''B'', passed = False\<rparr>]"
    by (simp add: two_tests_def runTest_def always_def)
  have tally: "tally_line [\<lparr>name = ''A'', passed = True\<rparr>, \<lparr>name = ''B'', passed = False\<rparr>] =
       nl @ ''  1/2 tests passed''"
    by (simp add: tally_line_def show_nat.simps digit_def)
  have errs: "stderr_lines (snd (index_ts env_required two_tests)) =
       [[JsString (nl @ glyph_fail @ ''  B '' @ glyph_dash @ '' FAILED'')],
        [JsString ''    boom'']]"
    by (simp add: run stderr_lines_append divider_quiet out_def err_def)
  show ?thesis by (intro conjI run final res tally errs)
qed

text \<open>Witness of C6: the status, the last line and the two error lines, read off the theorem.\<close>

theorem concrete_scenario_witness:
  "fst (index_ts env_required two_tests) = Exited 0
   \<and> last (snd (index_ts env_required two_tests)) = out (nl @ ''  1/2 tests passed'')
   \<and> length (stderr_lines (snd (index_ts env_required two_tests))) = 2"
proof (intro conjI)
  show "fst (index_ts env_required two_tests) = Exited 0"
    by (simp only: concrete_scenario [THEN conjunct1] fst_conv)
  show "last (snd (index_ts env_required two_tests)) = out (nl @ ''  1/2 tests passed'')"
    by (rule concrete_scenario [THEN conjunct2, THEN conjunct1])
  show "length (stderr_lines (snd (index_ts env_required two_tests))) = 2"
    by (simp add: concrete_scenario [THEN conjunct2, THEN conjunct2, THEN conjunct2,
          THEN conjunct2])
qed



text \<open>
  C8 (sequential execution). In every history of the starter kit, and of the loop that
  both variants share, the invocations and settlements form a prefix of the sequential
  schedule of the registered names, and at most one action is in flight at any point; when
  \<open>main\<close> returns, the whole schedule was run. For every registered test, once the loop
  has returned from the tests before it: all of those were invoked and have settled; the
  history continues with this test's header and invocation, then with what its action does
  when applied to exactly that history, then with its settlement, and only then with the
  later tests in order; an action that hangs ends the history. When the loop does not
  return from the earlier tests, no later test runs.
\<close>

theorem sequential_execution:
  "prefix (marks (snd (index_ts e tests))) (schedule (map fst tests))
   \<and> peak_in_flight (snd (index_ts e tests)) \<le> 1
   \<and> prefix (marks (snd (run_tests tests [] []))) (schedule (map fst tests))
   \<and> peak_in_flight (snd (run_tests tests [] [])) \<le> 1
   \<and> (fst (main (module_scope e) tests []) = Returned () \<longrightarrow>
        marks (snd (main (module_scope e) tests [])) = schedule (map fst tests))
   \<and> (truthy (getenv e ''AZURE_API_ENDPOINT'') \<and> truthy (getenv e ''AZURE_API_KEY'')
        \<and> run_tests pre [] (banner e) = (Returned rs, hp) \<longrightarrow>
          marks hp = schedule (map fst pre)
        \<and> (\<exists>rest.
              snd (index_ts e (pre @ (n, fn) # post)) =
                hp @ divider n @ [Invoke n]
                   @ map IO (fst (fn (hp @ divider n @ [Invoke n]))) @ rest
            \<and> prefix (marks rest) (Settle n # schedule (map fst post))
            \<and> (snd (fn (hp @ divider n @ [Invoke n])) = Hangs \<longrightarrow> rest = [])
            \<and> (snd (fn (hp @ divider n @ [Invoke n])) \<noteq> Hangs \<longrightarrow>
                  prefix [Settle n] (marks rest))))
   \<and> ((\<forall>rs'. fst (run_tests pre [] h) \<noteq> Returned rs') \<longrightarrow>
        run_tests (pre @ post) [] h = run_tests pre [] h)"
proof -
  obtain k where k: "marks (snd (index_ts e tests)) = take k (schedule (map fst tests))"
    using marks_index_ts by blast
  obtain j where j: "marks (snd (run_tests tests [] [])) = take j (schedule (map fst tests))"
    using marks_run_tests [of tests "[]" "[]"] by auto
  have order: "prefix (marks (snd (index_ts e tests))) (schedule (map fst tests))
      \<and> peak_in_flight (snd (index_ts e tests)) \<le> 1
      \<and> prefix (marks (snd (run_tests tests [] []))) (schedule (map fst tests))
      \<and> peak_in_flight (snd (run_tests tests [] [])) \<le> 1
      \<and> (fst (main (module_scope e) tests []) = Returned () \<longrightarrow>
           marks (snd (main (module_scope e) tests [])) = schedule (map fst tests))"
    using k j peak_of_prefix [OF k] peak_of_prefix [OF j] marks_main_returned [of e tests "[]" "()"]
    by (simp add: take_is_prefix)
  have stops: "(\<forall>rs'. fst (run_tests pre [] h) \<noteq> Returned rs') \<longrightarrow>
        run_tests (pre @ post) [] h = run_tests pre [] h"
    using run_tests_stops [of pre "[]" h post] by blast
  from order stops index_ts_segment [of e pre rs hp n fn post] show ?thesis by blast
qed

text \<open>
  Witness of C8: the run of \<open>A\<close> and \<open>B\<close>, with \<open>B\<close> as the test looked at.
\<close>

theorem sequential_execution_witness:
  "marks (snd (main (module_scope env_required) two_tests [])) =
     [Invoke ''A'', Settle ''A'', Invoke ''B'', Settle ''B'']
   \<and> peak_in_flight (snd (index_ts env_required two_tests)) \<le> 1
   \<and> (\<exists>rest.
         snd (index_ts env_required two_tests) =
           snd (run_tests [(''A'', always [] Resolves)] [] (banner env_required))
             @ divider ''B'' @ [Invoke ''B''] @ rest
       \<and> prefix [Settle ''B''] (marks rest))"
proof -
  let ?pre = "[(''A'', always [] Resolves)]"
  let ?B = "always [] (Rejects (JsError ''Error'' ''boom'' JsUndefined))"
  let ?h1 = "snd (run_tests ?pre [] (banner env_required))"
  note seq = sequential_execution [where e = env_required and tests = two_tests and pre = ?pre
      and rs = "[\<lparr>name = ''A'', passed = True\<rparr>]" and hp = ?h1 and n = "''B''" and fn = ?B
      and post = "[]"]
  have ret: "fst (main (module_scope env_required) two_tests []) = Returned ()"
    by (simp add: two_tests_main)
  have run: "run_tests ?pre [] (banner env_required) = (Returned [\<lparr>name = ''A'', passed = True\<rparr>], ?h1)"
    by (simp add: prod_eq_iff runTest_def always_def)
  have split: "?pre @ (''B'', ?B) # [] = two_tests" by (simp add: two_tests_def)
  from seq run env_required_ok obtain rest where
    "snd (index_ts env_required (?pre @ (''B'', ?B) # [])) =
        ?h1 @ divider ''B'' @ [Invoke ''B''] @ map IO (fst (?B (?h1 @ divider ''B'' @ [Invoke ''B'']))) @ rest"
    and "snd (?B (?h1 @ divider ''B'' @ [Invoke ''B''])) \<noteq> Hangs \<longrightarrow> prefix [Settle ''B''] (marks rest)"
    by blast
  then have seg: "snd (index_ts env_required two_tests) = ?h1 @ divider ''B'' @ [Invoke ''B''] @ rest
      \<and> prefix [Settle ''B''] (marks rest)"
    unfolding split by (simp add: always_def)
  from seq ret have "marks (snd (main (module_scope env_required) two_tests [])) =
      [Invoke ''A'', Settle ''A'', Invoke ''B'', Settle ''B'']"
    by (simp add: schedule_def two_tests_def)
  moreover from seq have "peak_in_flight (snd (index_ts env_required two_tests)) \<le> 1" by blast
  ultimately show ?thesis using seg by blast
qed

text \<open>
  C10 (the variant's undefined identifier). With the endpoint and the key set, \<open>main\<close> of
  the variant rejects with the \<^verbatim>\<open>ReferenceError\<close> for \<^verbatim>\<open>MODEL_GPd\<close> after four lines of
  the banner; the trailing \<^verbatim>\<open>catch\<close> prints that error, and the process ends with status
  0. No action is invoked, no request is made, and there is no summary.
\<close>

theorem flux_reference_error:
  assumes "truthy (getenv e ''AZURE_API_ENDPOINT'')" and "truthy (getenv e ''AZURE_API_KEY'')"
  shows "fst (main_flux (module_scope_flux e) tests []) = Threw (reference_error ''MODEL_GPd'')
       \<and> index_with_flux_ts e tests =
           (Exited 0,
            [out (glyph_rocket @ '' Vercel AI SDK v6 + Azure AI Foundry '' @ glyph_dash
                    @ '' Enhanced Integration Test Suite'' @ nl),
             out ''Configuration:'',
             out (glyph_tee @ '' Text Models Endpoint: '' @ to_string (getenv e ''AZURE_API_ENDPOINT'')),
             out (glyph_tee @ '' Image Model Endpoint: ''
                    @ to_string (js_or (getenv e ''FLUX_ENDPOINT'')
                         (JsString ''https://jai-omi.openai.azure.com/openai/v1/''))),
             IO (Log Stderr [reference_error ''MODEL_GPd''])])
       \<and> invoked (snd (index_with_flux_ts e tests)) = []
       \<and> fetches (snd (index_with_flux_ts e tests)) = []"
  using assms by (simp add: index_with_flux_ts_def main_flux_throws out_def)

text \<open>Witness of C10: the required variables only, and one test that would pass.\<close>

theorem flux_reference_error_witness:
  "index_with_flux_ts env_required [(''A'', always [] Resolves)] =
     (Exited 0,
      [out (glyph_rocket @ '' Vercel AI SDK v6 + Azure AI Foundry '' @ glyph_dash
              @ '' Enhanced Integration Test Suite'' @ nl),
       out ''Configuration:'',
       out (glyph_tee @ '' Text Models Endpoint: https://example.test/models''),
       out (glyph_tee @ '' Image Model Endpoint: https://jai-omi.openai.azure.com/openai/v1/''),
       IO (Log Stderr [reference_error ''MODEL_GPd''])])"
  using flux_reference_error [of env_required "[(''A'', always [] Resolves)]"]
  by (simp add: env_required_def getenv_def js_or_def)

end
